theory Spec2Isabelle
  imports Complex_Main "HOL-Library.Char_ord"
begin

section \<open>Conventions of the embedding\<close>

text \<open>
  Python floats are modelled as \<^typ>\<open>real\<close> (no NaN, no infinities), Python ints as
  \<^typ>\<open>int\<close>, landmark indices (the class constants 0..20) as \<^typ>\<open>nat\<close>.
  \<open>map_to_screen\<close>, whose float results are truncated to integer pixels, is modelled in
  double arithmetic: every float operation there is followed by \<open>fl\<close>, rounding to the
  nearest double, and the active region bounds are the doubles nearest to the configured
  decimals. The other float computations are modelled in exact real arithmetic.
  Attributes written \<open>self._prev_x\<close> in the source drop the leading underscore.
  Every function that mutates \<open>self\<close> returns the updated object next to its result.
  A Python exception is a value of type \<open>error\<close>. Calls into \<open>pyautogui\<close> are collected,
  in program order, as a list of \<open>action\<close>s; the call of \<open>hud.render\<close> is recorded as
  a \<open>render\<close> value. Camera capture, colour conversion, the FPS counter and the drawing
  code of the overlay are not modelled: a frame arrives as a \<open>frame\<close> record holding
  what the loop reads from them.
\<close>

datatype error = IndexError | KeyError | ZeroDivisionError

section \<open>Python primitives\<close>

text \<open>\<open>int(x)\<close> on a float: truncation towards zero.\<close>

definition py_int :: "real \<Rightarrow> int" where
  "py_int x = (if x < 0 then \<lceil>x\<rceil> else \<lfloor>x\<rfloor>)"

text \<open>\<open>xs[i]\<close> with a non-negative index: IndexError out of range.\<close>

definition py_index :: "'a list \<Rightarrow> nat \<Rightarrow> error + 'a" where
  "py_index xs i = (if i < length xs then Inr (xs ! i) else Inl IndexError)"

text \<open>\<open>s.lower()\<close>, on ASCII.\<close>

definition lower :: "string \<Rightarrow> string" where
  "lower s = map (\<lambda>c. if CHR ''A'' \<le> c \<and> c \<le> CHR ''Z''
                        then char_of (of_char c + (32::nat)) else c) s"

text \<open>
  Rounding of a real to the nearest IEEE 754 double, ties to even: the magnitude is scaled
  by powers of two into \<open>[2^52, 2^53)\<close>, rounded to an integer and scaled back. At most
  1074 halvings of the unit are made, which gives the gradual underflow of doubles.
  Overflow to infinity is not modelled.
\<close>

definition round_even :: "real \<Rightarrow> int" where
  "round_even x =
     (let n = \<lfloor>x\<rfloor>; r = x - real_of_int n
      in if r < 1 / 2 then n else if r > 1 / 2 then n + 1 else if even n then n else n + 1)"

fun normalise :: "nat \<Rightarrow> real \<Rightarrow> real \<Rightarrow> real \<times> real" where
  "normalise 0 m u = (m, u)"
| "normalise (Suc n) m u =
     (if m < 2 ^ 52 then normalise n (2 * m) (u / 2)
      else if 2 ^ 53 \<le> m then normalise n (m / 2) (2 * u)
      else (m, u))"

definition fl :: "real \<Rightarrow> real" where
  "fl x = (if x = 0 then 0
           else let (m, u) = normalise 1074 \<bar>x\<bar> 1
                in sgn x * real_of_int (round_even m) * u)"

section \<open>config.py\<close>

definition SMOOTHING_FACTOR :: real where "SMOOTHING_FACTOR = 6"

text \<open>The float literals \<open>0.2\<close> and \<open>0.8\<close>: the doubles nearest to 2/10 and 8/10.\<close>

definition ACTIVE_REGION_X_START :: real where "ACTIVE_REGION_X_START = fl (2 / 10)"
definition ACTIVE_REGION_X_END :: real where "ACTIVE_REGION_X_END = fl (8 / 10)"
definition ACTIVE_REGION_Y_START :: real where "ACTIVE_REGION_Y_START = fl (2 / 10)"
definition ACTIVE_REGION_Y_END :: real where "ACTIVE_REGION_Y_END = fl (8 / 10)"

definition CLICK_THRESHOLD :: real where "CLICK_THRESHOLD = 5 / 100"
definition SCROLL_SENSITIVITY :: real where "SCROLL_SENSITIVITY = 10"

definition FAILSAFE_X_END :: int where "FAILSAFE_X_END = 100"
definition FAILSAFE_Y_END :: int where "FAILSAFE_Y_END = 100"

definition CLICK_DEBOUNCE_TIME :: real where "CLICK_DEBOUNCE_TIME = 3 / 10"
definition SCROLL_DEBOUNCE_TIME :: real where "SCROLL_DEBOUNCE_TIME = 5 / 100"

definition MODE_ACTIVE :: string where "MODE_ACTIVE = ''ACTIVE''"
definition MODE_SCROLL :: string where "MODE_SCROLL = ''SCROLL''"
definition MODE_IDLE :: string where "MODE_IDLE = ''IDLE''"

section \<open>cursor_math.py: class CursorMath\<close>

type_synonym landmark = "real \<times> real \<times> real"

record CursorMath =
  screen_width :: int
  screen_height :: int
  prev_x :: "real option"
  prev_y :: "real option"
  prev_scroll_y :: "real option"
  active_x_start :: real
  active_x_end :: real
  active_y_start :: real
  active_y_end :: real

definition CursorMath_init :: "int \<Rightarrow> int \<Rightarrow> CursorMath" where
  "CursorMath_init w h =
     \<lparr> screen_width = w, screen_height = h,
       prev_x = None, prev_y = None, prev_scroll_y = None,
       active_x_start = ACTIVE_REGION_X_START, active_x_end = ACTIVE_REGION_X_END,
       active_y_start = ACTIVE_REGION_Y_START, active_y_end = ACTIVE_REGION_Y_END \<rparr>"

definition smooth_position :: "CursorMath \<Rightarrow> real \<Rightarrow> real \<Rightarrow> (real \<times> real) \<times> CursorMath" where
  "smooth_position self raw_x raw_y =
     (if prev_x self = None \<or> prev_y self = None then
        ((raw_x, raw_y), self\<lparr>prev_x := Some raw_x, prev_y := Some raw_y\<rparr>)
      else
        let smoothing = SMOOTHING_FACTOR;
            smoothed_x = the (prev_x self) + (raw_x - the (prev_x self)) / smoothing;
            smoothed_y = the (prev_y self) + (raw_y - the (prev_y self)) / smoothing
        in ((smoothed_x, smoothed_y),
            self\<lparr>prev_x := Some smoothed_x, prev_y := Some smoothed_y\<rparr>))"

definition map_to_screen :: "CursorMath \<Rightarrow> real \<Rightarrow> real \<Rightarrow> error + (int \<times> int)" where
  "map_to_screen self norm_x norm_y =
     (let clamped_x = max (active_x_start self) (min (active_x_end self) norm_x);
          clamped_y = max (active_y_start self) (min (active_y_end self) norm_y);
          active_width = fl (active_x_end self - active_x_start self);
          active_height = fl (active_y_end self - active_y_start self)
      in if active_width = 0 then Inl ZeroDivisionError
         else let mapped_x = fl (fl (clamped_x - active_x_start self) / active_width)
         in if active_height = 0 then Inl ZeroDivisionError
         else let mapped_y = fl (fl (clamped_y - active_y_start self) / active_height);
                  mapped_x = fl (1 - mapped_x);
                  screen_x = py_int (fl (mapped_x * fl (real_of_int (screen_width self))));
                  screen_y = py_int (fl (mapped_y * fl (real_of_int (screen_height self))));
                  screen_x = max 0 (min (screen_width self - 1) screen_x);
                  screen_y = max 0 (min (screen_height self - 1) screen_y)
         in Inr (screen_x, screen_y))"

definition euclidean_distance :: "landmark \<Rightarrow> landmark \<Rightarrow> real" where
  "euclidean_distance point1 point2 =
     (let dx = fst point1 - fst point2;
          dy = fst (snd point1) - fst (snd point2)
      in sqrt (dx * dx + dy * dy))"

definition is_click :: "landmark \<Rightarrow> landmark \<Rightarrow> bool" where
  "is_click thumb_tip finger_tip =
     (let distance = euclidean_distance thumb_tip finger_tip
      in distance < CLICK_THRESHOLD)"

definition calculate_scroll_delta :: "CursorMath \<Rightarrow> real \<Rightarrow> int \<times> CursorMath" where
  "calculate_scroll_delta self current_y =
     (case prev_scroll_y self of
        None \<Rightarrow> (0, self\<lparr>prev_scroll_y := Some current_y\<rparr>)
      | Some ref_y \<Rightarrow>
          let delta = (current_y - ref_y) * SCROLL_SENSITIVITY * 100
          in (py_int delta, self\<lparr>prev_scroll_y := Some current_y\<rparr>))"

definition reset_scroll_reference :: "CursorMath \<Rightarrow> CursorMath" where
  "reset_scroll_reference self = self\<lparr>prev_scroll_y := None\<rparr>"

definition is_in_failsafe_region :: "CursorMath \<Rightarrow> int \<Rightarrow> int \<Rightarrow> bool" where
  "is_in_failsafe_region self screen_x screen_y =
     (screen_x < FAILSAFE_X_END \<and> screen_y < FAILSAFE_Y_END)"

definition reset_smoothing :: "CursorMath \<Rightarrow> CursorMath" where
  "reset_smoothing self = self\<lparr>prev_x := None, prev_y := None\<rparr>"

section \<open>hand_engine.py: HandLandmarks and class HandEngine\<close>

text \<open>The field \<open>raw_landmarks\<close> (the MediaPipe object kept for drawing) is not modelled.\<close>

record HandLandmarks =
  landmarks :: "landmark list"
  handedness :: string

definition WRIST :: nat where "WRIST = 0"
definition THUMB_TIP :: nat where "THUMB_TIP = 4"
definition INDEX_FINGER_MCP :: nat where "INDEX_FINGER_MCP = 5"
definition INDEX_FINGER_PIP :: nat where "INDEX_FINGER_PIP = 6"
definition INDEX_FINGER_TIP :: nat where "INDEX_FINGER_TIP = 8"
definition MIDDLE_FINGER_MCP :: nat where "MIDDLE_FINGER_MCP = 9"
definition MIDDLE_FINGER_PIP :: nat where "MIDDLE_FINGER_PIP = 10"
definition MIDDLE_FINGER_TIP :: nat where "MIDDLE_FINGER_TIP = 12"
definition RING_FINGER_MCP :: nat where "RING_FINGER_MCP = 13"
definition RING_FINGER_PIP :: nat where "RING_FINGER_PIP = 14"
definition RING_FINGER_TIP :: nat where "RING_FINGER_TIP = 16"
definition PINKY_MCP :: nat where "PINKY_MCP = 17"
definition PINKY_PIP :: nat where "PINKY_PIP = 18"
definition PINKY_TIP :: nat where "PINKY_TIP = 20"

definition get_landmark :: "HandLandmarks \<Rightarrow> nat \<Rightarrow> error + landmark" where
  "get_landmark hand_data landmark_id = py_index (landmarks hand_data) landmark_id"

definition finger_tips :: "string \<rightharpoonup> nat" where
  "finger_tips = map_of
     [(''thumb'', THUMB_TIP), (''index'', INDEX_FINGER_TIP), (''middle'', MIDDLE_FINGER_TIP),
      (''ring'', RING_FINGER_TIP), (''pinky'', PINKY_TIP)]"

definition get_fingertip :: "HandLandmarks \<Rightarrow> string \<Rightarrow> error + landmark" where
  "get_fingertip hand_data finger =
     (case finger_tips (lower finger) of
        None \<Rightarrow> Inl KeyError
      | Some i \<Rightarrow> get_landmark hand_data i)"

definition finger_joints :: "string \<rightharpoonup> nat \<times> nat \<times> nat" where
  "finger_joints = map_of
     [(''index'', (INDEX_FINGER_TIP, INDEX_FINGER_PIP, INDEX_FINGER_MCP)),
      (''middle'', (MIDDLE_FINGER_TIP, MIDDLE_FINGER_PIP, MIDDLE_FINGER_MCP)),
      (''ring'', (RING_FINGER_TIP, RING_FINGER_PIP, RING_FINGER_MCP)),
      (''pinky'', (PINKY_TIP, PINKY_PIP, PINKY_MCP))]"

definition is_finger_curled :: "HandLandmarks \<Rightarrow> string \<Rightarrow> error + bool" where
  "is_finger_curled hand_data finger =
     (case finger_joints (lower finger) of
        None \<Rightarrow> Inl KeyError
      | Some (tip_idx, pip_idx, mcp_idx) \<Rightarrow>
     (case py_index (landmarks hand_data) tip_idx of
        Inl e \<Rightarrow> Inl e
      | Inr tip \<Rightarrow>
     (case py_index (landmarks hand_data) pip_idx of
        Inl e \<Rightarrow> Inl e
      | Inr pip \<Rightarrow>
     (case py_index (landmarks hand_data) mcp_idx of
        Inl e \<Rightarrow> Inl e
      | Inr mcp \<Rightarrow>
          let tip_to_mcp = sqrt ((fst tip - fst mcp)\<^sup>2 + (fst (snd tip) - fst (snd mcp))\<^sup>2);
              pip_to_mcp = sqrt ((fst pip - fst mcp)\<^sup>2 + (fst (snd pip) - fst (snd mcp))\<^sup>2)
          in Inr (tip_to_mcp < pip_to_mcp * (12 / 10))))))"

text \<open>
  \<open>all(... for f in fingers)\<close>: the generator is consumed in order and stops at the first
  false value; an exception raised by an element propagates.
\<close>

fun all_curled :: "HandLandmarks \<Rightarrow> string list \<Rightarrow> error + bool" where
  "all_curled hand_data [] = Inr True"
| "all_curled hand_data (f # fs) =
     (case is_finger_curled hand_data f of
        Inl e \<Rightarrow> Inl e
      | Inr False \<Rightarrow> Inr False
      | Inr True \<Rightarrow> all_curled hand_data fs)"

definition is_fist :: "HandLandmarks \<Rightarrow> error + bool" where
  "is_fist hand_data =
     (let fingers = [''index'', ''middle'', ''ring'', ''pinky'']
      in all_curled hand_data fingers)"

section \<open>main.py: class KineticOS\<close>

text \<open>
  \<open>pyautogui.moveTo(x, y)\<close>, \<open>pyautogui.click(button=b)\<close> and \<open>pyautogui.scroll(n)\<close>,
  in the order the code calls them.
\<close>

datatype action = MoveTo int int | Click string | Scroll int

record KineticOS =
  cursor_math :: CursorMath
  current_mode :: string
  last_left_click_time :: real
  last_right_click_time :: real
  last_scroll_time :: real
  is_left_clicking :: bool
  is_right_clicking :: bool
  is_scrolling :: bool
  click_indicator :: "(string \<times> int \<times> int) option"
  click_indicator_time :: real

text \<open>\<open>__init__\<close>, given what \<open>pyautogui.size()\<close> returned.\<close>

definition KineticOS_init :: "int \<Rightarrow> int \<Rightarrow> KineticOS" where
  "KineticOS_init w h =
     \<lparr> cursor_math = CursorMath_init w h,
       current_mode = MODE_IDLE,
       last_left_click_time = 0, last_right_click_time = 0, last_scroll_time = 0,
       is_left_clicking = False, is_right_clicking = False, is_scrolling = False,
       click_indicator = None, click_indicator_time = 0 \<rparr>"

definition check_left_click :: "HandLandmarks \<Rightarrow> error + bool" where
  "check_left_click hand_data =
     (case get_fingertip hand_data ''thumb'' of
        Inl e \<Rightarrow> Inl e
      | Inr thumb_tip \<Rightarrow>
     (case get_fingertip hand_data ''index'' of
        Inl e \<Rightarrow> Inl e
      | Inr index_tip \<Rightarrow> Inr (is_click thumb_tip index_tip)))"

definition check_right_click :: "HandLandmarks \<Rightarrow> error + bool" where
  "check_right_click hand_data =
     (case get_fingertip hand_data ''thumb'' of
        Inl e \<Rightarrow> Inl e
      | Inr thumb_tip \<Rightarrow>
     (case get_fingertip hand_data ''middle'' of
        Inl e \<Rightarrow> Inl e
      | Inr middle_tip \<Rightarrow> Inr (is_click thumb_tip middle_tip)))"

text \<open>
  \<open>_process_gestures\<close> is split at its \<open>if self.hand_engine.is_fist(hand_data)\<close>:
  \<open>scroll_branch\<close> is the body of the \<open>if\<close> (lines 129-145), \<open>active_branch\<close> the body of
  the \<open>else\<close> (lines 147-173), each followed by \<open>return scroll_delta\<close>. The result is the
  returned integer or the exception raised, the \<open>pyautogui\<close> calls made up to that
  point, and the object as mutated up to that point.
\<close>

definition scroll_branch ::
  "KineticOS \<Rightarrow> HandLandmarks \<Rightarrow> real \<Rightarrow> (error + int) \<times> action list \<times> KineticOS" where
  "scroll_branch self hand_data cur_time =
     (let self = self\<lparr>current_mode := MODE_SCROLL\<rparr>;
          self = (if \<not> is_scrolling self
                  then self\<lparr>is_scrolling := True,
                            cursor_math := reset_scroll_reference (cursor_math self)\<rparr>
                  else self)
      in (case get_landmark hand_data WRIST of
           Inl e \<Rightarrow> (Inl e, [], self)
         | Inr wrist \<Rightarrow>
             let (scroll_delta, cm) = calculate_scroll_delta (cursor_math self) (fst (snd wrist));
                 self = self\<lparr>cursor_math := cm\<rparr>;
                 debounce_ok = (cur_time - last_scroll_time self > SCROLL_DEBOUNCE_TIME)
             in if \<bar>scroll_delta\<bar> > 0 \<and> debounce_ok
                then (Inr scroll_delta, [Scroll (- scroll_delta)],
                      self\<lparr>last_scroll_time := cur_time\<rparr>)
                else (Inr scroll_delta, [], self)))"

definition active_branch ::
  "KineticOS \<Rightarrow> HandLandmarks \<Rightarrow> real \<Rightarrow> int \<Rightarrow> int \<Rightarrow> (error + int) \<times> action list \<times> KineticOS" where
  "active_branch self hand_data cur_time screen_x screen_y =
     (let self = self\<lparr>is_scrolling := False, current_mode := MODE_ACTIVE\<rparr>;
          acts = [MoveTo screen_x screen_y]
      in (case check_left_click hand_data of
           Inl e \<Rightarrow> (Inl e, acts, self)
         | Inr left_now \<Rightarrow>
             let (acts, self) =
                   (if left_now \<and> \<not> is_left_clicking self then
                      let elapsed = cur_time - last_left_click_time self
                      in if elapsed > CLICK_DEBOUNCE_TIME
                         then (acts @ [Click ''left''],
                               self\<lparr>last_left_click_time := cur_time,
                                     click_indicator := Some (''LEFT'', screen_x, screen_y),
                                     click_indicator_time := cur_time\<rparr>)
                         else (acts, self)
                    else (acts, self));
                 self = self\<lparr>is_left_clicking := left_now\<rparr>
             in (case check_right_click hand_data of
                  Inl e \<Rightarrow> (Inl e, acts, self)
                | Inr right_now \<Rightarrow>
                    let (acts, self) =
                          (if right_now \<and> \<not> is_right_clicking self then
                             let elapsed = cur_time - last_right_click_time self
                             in if elapsed > CLICK_DEBOUNCE_TIME
                                then (acts @ [Click ''right''],
                                      self\<lparr>last_right_click_time := cur_time,
                                            click_indicator := Some (''RIGHT'', screen_x, screen_y),
                                            click_indicator_time := cur_time\<rparr>)
                                else (acts, self)
                           else (acts, self));
                        self = self\<lparr>is_right_clicking := right_now\<rparr>
                    in (Inr 0, acts, self))))"

definition process_gestures ::
  "KineticOS \<Rightarrow> HandLandmarks \<Rightarrow> real \<Rightarrow> (error + int) \<times> action list \<times> KineticOS" where
  "process_gestures self hand_data cur_time =
     (case get_fingertip hand_data ''index'' of
        Inl e \<Rightarrow> (Inl e, [], self)
      | Inr index_tip \<Rightarrow>
          let ((smooth_x, smooth_y), cm) =
                smooth_position (cursor_math self) (fst index_tip) (fst (snd index_tip));
              self = self\<lparr>cursor_math := cm\<rparr>
          in (case map_to_screen (cursor_math self) smooth_x smooth_y of
               Inl e \<Rightarrow> (Inl e, [], self)
             | Inr (screen_x, screen_y) \<Rightarrow>
                 if is_in_failsafe_region (cursor_math self) screen_x screen_y
                 then (Inr (- 999), [], self)
                 else (case is_fist hand_data of
                         Inl e \<Rightarrow> (Inl e, [], self)
                       | Inr True \<Rightarrow> scroll_branch self hand_data cur_time
                       | Inr False \<Rightarrow> active_branch self hand_data cur_time screen_x screen_y)))"

subsection \<open>The main loop\<close>

text \<open>
  What one pass of \<open>while True\<close> reads: \<open>ret\<close> from \<open>cap.read()\<close>, the result of
  \<open>hand_engine.process_frame\<close>, \<open>time.time()\<close>, and whether \<open>cv2.waitKey(1)\<close> saw \<open>q\<close>.
\<close>

record frame =
  ret :: bool
  hand :: "HandLandmarks option"
  time_now :: real
  key_q :: bool

text \<open>The arguments of \<open>hud.render\<close> that come from the state machine.\<close>

record render =
  render_mode :: string
  render_failsafe :: bool
  render_click_info :: "(string \<times> int \<times> int) option"
  render_scroll_delta :: int

datatype signal = Continue | Break | Raised error

definition run_iteration ::
  "KineticOS \<Rightarrow> frame \<Rightarrow> signal \<times> (action list \<times> render option) \<times> KineticOS" where
  "run_iteration self f =
     (let cur_time = time_now f
      in if \<not> ret f then (Continue, ([], None), self)
         else
           let (res, acts, self) =
                 (case hand f of
                    Some hand_data \<Rightarrow> process_gestures self hand_data cur_time
                  | None \<Rightarrow>
                      (Inr 0, [],
                       self\<lparr>current_mode := MODE_IDLE,
                             cursor_math := reset_smoothing (cursor_math self),
                             is_left_clicking := False,
                             is_right_clicking := False,
                             is_scrolling := False\<rparr>))
           in (case res of
                Inl e \<Rightarrow> (Raised e, (acts, None), self)
              | Inr result \<Rightarrow>
                  if hand f \<noteq> None \<and> result = - 999 then
                    (Break,
                     (acts, Some \<lparr>render_mode = ''EXIT'', render_failsafe = True,
                                  render_click_info = None, render_scroll_delta = 0\<rparr>),
                     self)
                  else
                    let scroll_delta = result;
                        self = (if click_indicator self \<noteq> None
                                   \<and> cur_time - click_indicator_time self > 3 / 10
                                then self\<lparr>click_indicator := None\<rparr> else self);
                        shown = \<lparr>render_mode = current_mode self, render_failsafe = False,
                                 render_click_info = click_indicator self,
                                 render_scroll_delta = scroll_delta\<rparr>
                    in if key_q f then (Break, (acts, Some shown), self)
                       else (Continue, (acts, Some shown), self)))"

text \<open>
  \<open>run\<close> on the frames that arrive: the per-frame outputs up to and including the frame
  at which the loop was left, how it was left (\<open>Continue\<close>: the frames ran out with the loop
  still running), and the final object.
\<close>

fun run ::
  "KineticOS \<Rightarrow> frame list \<Rightarrow> (action list \<times> render option) list \<times> signal \<times> KineticOS" where
  "run self [] = ([], Continue, self)"
| "run self (f # fs) =
     (case run_iteration self f of
        (Continue, out, self') \<Rightarrow>
          (let (outs, sg, self'') = run self' fs in (out # outs, sg, self''))
      | (sg, out, self') \<Rightarrow> ([out], sg, self'))"

section \<open>Specification-side definitions\<close>

text \<open>
  The spec's \<open>is_finger_curled(tip, pip, mcp)\<close>: the planar distance from tip to mcp is
  less than 1.2 times the planar distance from pip to mcp.
\<close>

definition is_finger_curled_spec :: "landmark \<Rightarrow> landmark \<Rightarrow> landmark \<Rightarrow> bool" where
  "is_finger_curled_spec tip pip mcp =
     (euclidean_distance tip mcp < (12 / 10) * euclidean_distance pip mcp)"

text \<open>
  The spec's \<open>map_to_screen\<close>: clamp to the active region, rescale to the unit square,
  mirror x, scale to pixels with truncation, clamp to \<open>[0, dim - 1]\<close>; the arithmetic of
  each step is double arithmetic.
\<close>

definition clamp_to :: "'a::linorder \<Rightarrow> 'a \<Rightarrow> 'a \<Rightarrow> 'a" where
  "clamp_to lo hi v = max lo (min hi v)"

definition map_to_screen_spec :: "CursorMath \<Rightarrow> real \<Rightarrow> real \<Rightarrow> int \<times> int" where
  "map_to_screen_spec self x y =
     (let cx = clamp_to (active_x_start self) (active_x_end self) x;
          cy = clamp_to (active_y_start self) (active_y_end self) y;
          ux = fl (fl (cx - active_x_start self) / fl (active_x_end self - active_x_start self));
          uy = fl (fl (cy - active_y_start self) / fl (active_y_end self - active_y_start self));
          mx = fl (1 - ux)
      in (clamp_to 0 (screen_width self - 1)
            (py_int (fl (mx * fl (real_of_int (screen_width self))))),
          clamp_to 0 (screen_height self - 1)
            (py_int (fl (uy * fl (real_of_int (screen_height self)))))))"

text \<open>
  The spec's click rule for one click kind, over the per-frame pinch predicate and frame
  time: a click fires on a frame where the predicate is true, was false on the previous
  frame (the edge state) and the time since the kind's last fire exceeds the click
  debounce interval; a fire updates the kind's timestamp, and the edge state becomes the
  current predicate value either way.
\<close>

fun click_fires :: "bool \<Rightarrow> real \<Rightarrow> (bool \<times> real) list \<Rightarrow> bool list" where
  "click_fires prev last_fire [] = []"
| "click_fires prev last_fire ((pinch, t) # rest) =
     (let fire = (pinch \<and> \<not> prev \<and> t - last_fire > CLICK_DEBOUNCE_TIME)
      in fire # click_fires pinch (if fire then t else last_fire) rest)"

section \<open>What is observed of a frame\<close>

text \<open>
  The pinch predicates of a frame's hand, as \<open>_check_left_click\<close> and
  \<open>_check_right_click\<close> compute them; how many times a pass of the loop called
  \<open>pyautogui.click\<close> with a given button; and whether the pass rendered the mode
  \<open>ACTIVE\<close>.
\<close>

definition left_pinch :: "frame \<Rightarrow> bool" where
  "left_pinch f = (case hand f of None \<Rightarrow> False | Some h \<Rightarrow> check_left_click h = Inr True)"

definition right_pinch :: "frame \<Rightarrow> bool" where
  "right_pinch f = (case hand f of None \<Rightarrow> False | Some h \<Rightarrow> check_right_click h = Inr True)"

definition click_count :: "string \<Rightarrow> action list \<times> render option \<Rightarrow> nat" where
  "click_count button out = count_list (fst out) (Click button)"

definition rendered_active :: "action list \<times> render option \<Rightarrow> bool" where
  "rendered_active out = (case snd out of None \<Rightarrow> False | Some shown \<Rightarrow> render_mode shown = MODE_ACTIVE)"

section \<open>Sample hands\<close>

text \<open>
  A 21-point hand with ring and pinky folded, placed at an offset; the tips of thumb,
  index and middle finger are given. Used to run the code on concrete frames.
\<close>

definition sample_hand :: "real \<Rightarrow> real \<Rightarrow> real \<times> real \<Rightarrow> real \<times> real \<Rightarrow> real \<times> real \<Rightarrow> HandLandmarks" where
  "sample_hand ox oy thumb_tip index_tip middle_tip =
     \<lparr> landmarks = map (\<lambda>(x, y). (x + ox, y + oy, 0))
         [(50 / 100, 90 / 100),
          (45 / 100, 80 / 100), (40 / 100, 70 / 100), (38 / 100, 65 / 100), thumb_tip,
          (45 / 100, 60 / 100), (45 / 100, 50 / 100), (45 / 100, 45 / 100), index_tip,
          (50 / 100, 60 / 100), (50 / 100, 50 / 100), (50 / 100, 45 / 100), middle_tip,
          (55 / 100, 60 / 100), (55 / 100, 50 / 100), (55 / 100, 55 / 100), (55 / 100, 62 / 100),
          (60 / 100, 62 / 100), (60 / 100, 54 / 100), (60 / 100, 58 / 100), (60 / 100, 64 / 100)],
       handedness = ''Right'' \<rparr>"

definition pointing_hand :: HandLandmarks where
  "pointing_hand = sample_hand 0 0 (38 / 100, 60 / 100) (45 / 100, 30 / 100) (50 / 100, 62 / 100)"

definition left_pinch_hand :: HandLandmarks where
  "left_pinch_hand = sample_hand 0 0 (45 / 100, 32 / 100) (45 / 100, 30 / 100) (50 / 100, 62 / 100)"

definition right_pinch_hand :: HandLandmarks where
  "right_pinch_hand = sample_hand 0 0 (50 / 100, 60 / 100) (45 / 100, 30 / 100) (50 / 100, 62 / 100)"

definition fist_hand :: HandLandmarks where
  "fist_hand = sample_hand 0 0 (40 / 100, 60 / 100) (45 / 100, 62 / 100) (50 / 100, 62 / 100)"

definition corner_fist_hand :: HandLandmarks where
  "corner_fist_hand =
     sample_hand (35 / 100) (- 40 / 100) (40 / 100, 60 / 100) (45 / 100, 62 / 100) (50 / 100, 62 / 100)"

definition corner_pointing_hand :: HandLandmarks where
  "corner_pointing_hand =
     sample_hand (35 / 100) (- 10 / 100) (38 / 100, 60 / 100) (45 / 100, 30 / 100) (50 / 100, 62 / 100)"



text \<open>A captured frame with a hand, at a given time, without the quit key.\<close>

definition sample_frame :: "HandLandmarks \<Rightarrow> real \<Rightarrow> frame" where
  "sample_frame h t = \<lparr> ret = True, hand = Some h, time_now = t, key_q = False \<rparr>"


section \<open>Signal conditioner: smoothing and scroll delta\<close>


text \<open>
  Claim C4. \<open>smooth_position\<close>: when the filter state is unset (as after \<open>reset_smoothing\<close>)
  the raw values are returned unchanged and stored as the filter state; otherwise each
  axis returns \<open>prev + (raw - prev) / SMOOTHING_FACTOR\<close> and the filter state becomes
  that smoothed value, so that the next call smooths from the previous output. Nothing
  but \<open>prev_x\<close> and \<open>prev_y\<close> changes, and a result is always returned (the divisor is the
  constant 6).
\<close>

theorem smooth_position_filter:
  "(prev_x self = None \<or> prev_y self = None \<longrightarrow>
      smooth_position self raw_x raw_y =
        ((raw_x, raw_y), self\<lparr>prev_x := Some raw_x, prev_y := Some raw_y\<rparr>))
   \<and> smooth_position (reset_smoothing self) raw_x raw_y =
        ((raw_x, raw_y), self\<lparr>prev_x := Some raw_x, prev_y := Some raw_y\<rparr>)
   \<and> (prev_x self = Some px \<and> prev_y self = Some py \<longrightarrow>
      smooth_position self raw_x raw_y =
        ((px + (raw_x - px) / SMOOTHING_FACTOR, py + (raw_y - py) / SMOOTHING_FACTOR),
         self\<lparr>prev_x := Some (px + (raw_x - px) / SMOOTHING_FACTOR),
               prev_y := Some (py + (raw_y - py) / SMOOTHING_FACTOR)\<rparr>))
   \<and> (smooth_position self raw_x raw_y = ((sx, sy), self') \<longrightarrow>
      smooth_position self' raw_x' raw_y' =
        ((sx + (raw_x' - sx) / SMOOTHING_FACTOR, sy + (raw_y' - sy) / SMOOTHING_FACTOR),
         self\<lparr>prev_x := Some (sx + (raw_x' - sx) / SMOOTHING_FACTOR),
               prev_y := Some (sy + (raw_y' - sy) / SMOOTHING_FACTOR)\<rparr>))
   \<and> SMOOTHING_FACTOR > 1"
  by (auto simp: smooth_position_def reset_smoothing_def SMOOTHING_FACTOR_def Let_def)

theorem smooth_position_filter_witness:
  "smooth_position (CursorMath_init 1920 1080) (1 / 2) (1 / 4) =
     ((1 / 2, 1 / 4), (CursorMath_init 1920 1080)\<lparr>prev_x := Some (1 / 2), prev_y := Some (1 / 4)\<rparr>)
   \<and> smooth_position ((CursorMath_init 1920 1080)\<lparr>prev_x := Some 0, prev_y := Some 0\<rparr>) 6 12 =
     ((1, 2), (CursorMath_init 1920 1080)\<lparr>prev_x := Some 1, prev_y := Some 2\<rparr>)
   \<and> smooth_position ((CursorMath_init 1920 1080)\<lparr>prev_x := Some 1, prev_y := Some 2\<rparr>) 7 8 =
     ((2, 3), (CursorMath_init 1920 1080)\<lparr>prev_x := Some 2, prev_y := Some 3\<rparr>)"
  using smooth_position_filter [of "CursorMath_init 1920 1080" "1 / 2" "1 / 4" 0 0]
    smooth_position_filter [of "(CursorMath_init 1920 1080)\<lparr>prev_x := Some 0, prev_y := Some 0\<rparr>" 6 12 0 0 1 2
      "(CursorMath_init 1920 1080)\<lparr>prev_x := Some 1, prev_y := Some 2\<rparr>" 7 8]
  by (simp add: CursorMath_init_def SMOOTHING_FACTOR_def)




section \<open>Mapping to the screen\<close>

lemma normalise_numeral:
  "normalise (numeral k) m u =
     (if m < 2 ^ 52 then normalise (pred_numeral k) (2 * m) (u / 2)
      else if 2 ^ 53 \<le> m then normalise (pred_numeral k) (m / 2) (2 * u)
      else (m, u))"
  by (simp add: numeral_eq_Suc)

lemmas fl_eval = fl_def normalise_numeral round_even_def

lemma region_doubles:
  "ACTIVE_REGION_X_START = 3602879701896397 / 18014398509481984"
  "ACTIVE_REGION_X_END = 3602879701896397 / 4503599627370496"
  "ACTIVE_REGION_Y_START = 3602879701896397 / 18014398509481984"
  "ACTIVE_REGION_Y_END = 3602879701896397 / 4503599627370496"
  by (simp_all add: ACTIVE_REGION_X_START_def ACTIVE_REGION_X_END_def
        ACTIVE_REGION_Y_START_def ACTIVE_REGION_Y_END_def fl_eval)

lemma init_region:
  "fl (active_x_end (CursorMath_init w h) - active_x_start (CursorMath_init w h)) \<noteq> 0"
  "fl (active_y_end (CursorMath_init w h) - active_y_start (CursorMath_init w h)) \<noteq> 0"
  by (simp_all add: CursorMath_init_def region_doubles fl_eval)

lemma map_to_screen_refines:
  assumes "fl (active_x_end self - active_x_start self) \<noteq> 0"
    and "fl (active_y_end self - active_y_start self) \<noteq> 0"
  shows "map_to_screen self x y = Inr (map_to_screen_spec self x y)"
  using assms by (simp add: map_to_screen_def map_to_screen_spec_def clamp_to_def Let_def)


lemma map_to_screen_samples:
  "map_to_screen ((CursorMath_init 1920 1080)\<lparr>prev_x := a, prev_y := b\<rparr>) (4 / 5) (11 / 50) = Inr (0, 35)"
  "map_to_screen ((CursorMath_init 1920 1080)\<lparr>prev_x := a, prev_y := b\<rparr>) (4 / 5) (1 / 5) = Inr (0, 0)"
  "map_to_screen ((CursorMath_init 1920 1080)\<lparr>prev_x := a, prev_y := b\<rparr>) (9 / 20) (31 / 50) = Inr (1120, 755)"
  "map_to_screen ((CursorMath_init 1920 1080)\<lparr>prev_x := a, prev_y := b\<rparr>) (9 / 20) (3 / 10) = Inr (1120, 179)"
  unfolding map_to_screen_def Let_def CursorMath_init_def region_doubles
  by (simp_all add: py_int_def fl_eval)

lemma clamp_to_idem: "clamp_to lo hi (clamp_to lo hi v) = clamp_to lo hi v"
  by (auto simp: clamp_to_def max_def min_def)

lemma clamp_to_range: "lo \<le> hi \<Longrightarrow> lo \<le> clamp_to lo hi v \<and> clamp_to lo hi v \<le> hi"
  by (auto simp: clamp_to_def max_def min_def)

lemma clamp_to_nearest:
  fixes v :: real
  assumes "lo \<le> a" "a \<le> hi"
  shows "\<bar>v - clamp_to lo hi v\<bar> \<le> \<bar>v - a\<bar>"
  using assms by (auto simp: clamp_to_def max_def min_def)

lemma clamp_to_nearest_point:
  assumes "xs \<le> a" "a \<le> xe" "ys \<le> b" "b \<le> ye"
  shows "euclidean_distance (x, y, z) (clamp_to xs xe x, clamp_to ys ye y, z')
           \<le> euclidean_distance (x, y, z) (a, b, z'')"
proof -
  have "\<bar>x - clamp_to xs xe x\<bar> \<le> \<bar>x - a\<bar>" "\<bar>y - clamp_to ys ye y\<bar> \<le> \<bar>y - b\<bar>"
    using assms by (simp_all add: clamp_to_nearest)
  then have "(x - clamp_to xs xe x)\<^sup>2 \<le> (x - a)\<^sup>2" "(y - clamp_to ys ye y)\<^sup>2 \<le> (y - b)\<^sup>2"
    by (simp_all add: abs_le_square_iff)
  then show ?thesis
    by (simp add: euclidean_distance_def Let_def power2_eq_square [symmetric] add_mono)
qed

text \<open>
  Claim C5. \<open>map_to_screen\<close> is a function of the object's constants and the point alone.
  When the computed width and height of the active region are not zero (as they are for
  the region \<open>__init__\<close> sets from the configuration) it returns, for every real point, the result
  of the spec's steps: clamp to the active region, rescale, mirror x, scale to pixels with
  truncation, clamp to \<open>[0, dim - 1]\<close>; the result lies in \<open>[0, dim - 1]\<close> on a screen
  of positive size. A point and its clamped image, which is the point of the active
  region nearest to it, map to the same pixel.
\<close>

theorem map_to_screen_clamps:
  assumes "fl (active_x_end self - active_x_start self) \<noteq> 0"
    and "fl (active_y_end self - active_y_start self) \<noteq> 0"
  shows "map_to_screen self x y = Inr (map_to_screen_spec self x y)
     \<and> (0 < screen_width self \<and> 0 < screen_height self \<longrightarrow>
          0 \<le> fst (map_to_screen_spec self x y) \<and> fst (map_to_screen_spec self x y) \<le> screen_width self - 1
        \<and> 0 \<le> snd (map_to_screen_spec self x y) \<and> snd (map_to_screen_spec self x y) \<le> screen_height self - 1)
     \<and> map_to_screen self x y =
         map_to_screen self (clamp_to (active_x_start self) (active_x_end self) x)
                            (clamp_to (active_y_start self) (active_y_end self) y)
     \<and> (\<forall>a b. active_x_start self \<le> a \<and> a \<le> active_x_end self
              \<and> active_y_start self \<le> b \<and> b \<le> active_y_end self \<longrightarrow>
            euclidean_distance (x, y, 0) (clamp_to (active_x_start self) (active_x_end self) x,
                                          clamp_to (active_y_start self) (active_y_end self) y, 0)
              \<le> euclidean_distance (x, y, 0) (a, b, 0))
     \<and> fl (ACTIVE_REGION_X_END - ACTIVE_REGION_X_START) \<noteq> 0
     \<and> fl (ACTIVE_REGION_Y_END - ACTIVE_REGION_Y_START) \<noteq> 0"
proof -
  have r: "map_to_screen self x y = Inr (map_to_screen_spec self x y)" for x y
    using assms by (rule map_to_screen_refines)
  have b: "0 < screen_width self \<and> 0 < screen_height self \<longrightarrow>
          0 \<le> fst (map_to_screen_spec self x y) \<and> fst (map_to_screen_spec self x y) \<le> screen_width self - 1
        \<and> 0 \<le> snd (map_to_screen_spec self x y) \<and> snd (map_to_screen_spec self x y) \<le> screen_height self - 1"
    by (auto simp: map_to_screen_spec_def Let_def clamp_to_def max_def min_def)
  have c: "map_to_screen_spec self x y =
         map_to_screen_spec self (clamp_to (active_x_start self) (active_x_end self) x)
                            (clamp_to (active_y_start self) (active_y_end self) y)"
    by (simp add: map_to_screen_spec_def Let_def clamp_to_idem)
  have d: "\<forall>a b. active_x_start self \<le> a \<and> a \<le> active_x_end self
              \<and> active_y_start self \<le> b \<and> b \<le> active_y_end self \<longrightarrow>
            euclidean_distance (x, y, 0) (clamp_to (active_x_start self) (active_x_end self) x,
                                          clamp_to (active_y_start self) (active_y_end self) y, 0)
              \<le> euclidean_distance (x, y, 0) (a, b, 0)"
    using clamp_to_nearest_point by blast
  have e: "fl (ACTIVE_REGION_X_END - ACTIVE_REGION_X_START) \<noteq> 0"
    "fl (ACTIVE_REGION_Y_END - ACTIVE_REGION_Y_START) \<noteq> 0"
    by (simp_all add: region_doubles fl_eval)
  from r b c d e show ?thesis
    by simp
qed


theorem map_to_screen_clamps_witness:
  "map_to_screen (CursorMath_init 1920 1080) (1 / 2) (1 / 2) = Inr (960, 539)
   \<and> map_to_screen (CursorMath_init 1920 1080) (1 / 4) (3 / 8) = Inr (1760, 314)
   \<and> map_to_screen (CursorMath_init 1920 1080) (1 / 16) (15 / 16) = Inr (1919, 1079)
   \<and> map_to_screen (CursorMath_init 1920 1080)
        (clamp_to ACTIVE_REGION_X_START ACTIVE_REGION_X_END (1 / 16))
        (clamp_to ACTIVE_REGION_Y_START ACTIVE_REGION_Y_END (15 / 16)) = Inr (1919, 1079)"
proof -
  let ?cm = "CursorMath_init 1920 1080"
  have r: "active_x_start ?cm = ACTIVE_REGION_X_START" "active_x_end ?cm = ACTIVE_REGION_X_END"
    "active_y_start ?cm = ACTIVE_REGION_Y_START" "active_y_end ?cm = ACTIVE_REGION_Y_END"
    by (simp_all add: CursorMath_init_def)
  have "map_to_screen_spec ?cm (1 / 2) (1 / 2) = (960, 539)"
       "map_to_screen_spec ?cm (1 / 4) (3 / 8) = (1760, 314)"
       "map_to_screen_spec ?cm (1 / 16) (15 / 16) = (1919, 1079)"
    unfolding map_to_screen_spec_def Let_def CursorMath_init_def clamp_to_def region_doubles
    by (simp_all add: py_int_def fl_eval)
  note v = this
  from map_to_screen_clamps [OF init_region, of 1920 1080 "1 / 2" "1 / 2"] v(1)
  have 1: "map_to_screen ?cm (1 / 2) (1 / 2) = Inr (960, 539)"
    by simp
  from map_to_screen_clamps [OF init_region, of 1920 1080 "1 / 4" "3 / 8"] v(2)
  have 2: "map_to_screen ?cm (1 / 4) (3 / 8) = Inr (1760, 314)"
    by simp
  note c = map_to_screen_clamps [OF init_region, of 1920 1080 "1 / 16" "15 / 16"]
  from c v(3) have 3: "map_to_screen ?cm (1 / 16) (15 / 16) = Inr (1919, 1079)"
    by simp
  from c have "map_to_screen ?cm (1 / 16) (15 / 16) =
      map_to_screen ?cm (clamp_to ACTIVE_REGION_X_START ACTIVE_REGION_X_END (1 / 16))
        (clamp_to ACTIVE_REGION_Y_START ACTIVE_REGION_Y_END (15 / 16))"
    unfolding r by blast
  with 1 2 3 show ?thesis
    by simp
qed

section \<open>Fist detection\<close>

lemma lower_finger_names:
  "lower ''thumb'' = ''thumb''" "lower ''index'' = ''index''" "lower ''middle'' = ''middle''"
  "lower ''ring'' = ''ring''" "lower ''pinky'' = ''pinky''"
  by (simp_all add: lower_def)

lemma get_fingertip_names:
  "get_fingertip h ''thumb'' = py_index (landmarks h) 4"
  "get_fingertip h ''index'' = py_index (landmarks h) 8"
  "get_fingertip h ''middle'' = py_index (landmarks h) 12"
  by (simp_all add: get_fingertip_def lower_finger_names finger_tips_def get_landmark_def
        THUMB_TIP_def INDEX_FINGER_TIP_def MIDDLE_FINGER_TIP_def)

lemma finger_joints_names:
  "finger_joints (lower ''index'') = Some (8, 6, 5)"
  "finger_joints (lower ''middle'') = Some (12, 10, 9)"
  "finger_joints (lower ''ring'') = Some (16, 14, 13)"
  "finger_joints (lower ''pinky'') = Some (20, 18, 17)"
  by (simp_all add: lower_finger_names finger_joints_def
        INDEX_FINGER_TIP_def INDEX_FINGER_PIP_def INDEX_FINGER_MCP_def
        MIDDLE_FINGER_TIP_def MIDDLE_FINGER_PIP_def MIDDLE_FINGER_MCP_def
        RING_FINGER_TIP_def RING_FINGER_PIP_def RING_FINGER_MCP_def
        PINKY_TIP_def PINKY_PIP_def PINKY_MCP_def)

lemma is_finger_curled_joints:
  assumes "finger_joints (lower f) = Some (t, p, m)"
    and "t < length (landmarks h)" "p < length (landmarks h)" "m < length (landmarks h)"
  shows "is_finger_curled h f =
           Inr (is_finger_curled_spec (landmarks h ! t) (landmarks h ! p) (landmarks h ! m))"
  using assms
  by (simp add: is_finger_curled_def py_index_def is_finger_curled_spec_def
        euclidean_distance_def Let_def power2_eq_square mult.commute)

lemma is_fist_21:
  assumes "length (landmarks h) = 21"
  shows "is_fist h = Inr (is_finger_curled_spec (landmarks h ! 8) (landmarks h ! 6) (landmarks h ! 5)
      \<and> is_finger_curled_spec (landmarks h ! 12) (landmarks h ! 10) (landmarks h ! 9)
      \<and> is_finger_curled_spec (landmarks h ! 16) (landmarks h ! 14) (landmarks h ! 13)
      \<and> is_finger_curled_spec (landmarks h ! 20) (landmarks h ! 18) (landmarks h ! 17))"
  using assms
  by (auto simp: is_fist_def is_finger_curled_joints [OF finger_joints_names(1)]
        is_finger_curled_joints [OF finger_joints_names(2)]
        is_finger_curled_joints [OF finger_joints_names(3)]
        is_finger_curled_joints [OF finger_joints_names(4)] split: bool.splits)


lemma sqrt_scaled_less:
  assumes "0 \<le> c"
  shows "sqrt a < c * sqrt b \<longleftrightarrow> a < c\<^sup>2 * b"
proof -
  have "c * sqrt b = sqrt (c\<^sup>2 * b)"
    using assms by (simp add: real_sqrt_mult)
  then show ?thesis
    by simp
qed

lemma is_finger_curled_spec_squares:
  "is_finger_curled_spec (tx, ty, tz) (px, py, pz) (mx, my, mz) \<longleftrightarrow>
     (tx - mx)\<^sup>2 + (ty - my)\<^sup>2 < (144 / 100) * ((px - mx)\<^sup>2 + (py - my)\<^sup>2)"
  using sqrt_scaled_less [of "12 / 10" "(tx - mx)\<^sup>2 + (ty - my)\<^sup>2" "(px - mx)\<^sup>2 + (py - my)\<^sup>2"]
  by (simp add: is_finger_curled_spec_def euclidean_distance_def Let_def power2_eq_square)

lemma is_click_squares:
  "is_click (a, b, c) (d, e, f) \<longleftrightarrow> (a - d)\<^sup>2 + (b - e)\<^sup>2 < 25 / 10000"
  using sqrt_scaled_less [of "5 / 100" "(a - d)\<^sup>2 + (b - e)\<^sup>2" 1]
  by (simp add: is_click_def euclidean_distance_def Let_def CLICK_THRESHOLD_def power2_eq_square)



lemma length_sample_hand: "length (landmarks (sample_hand ox oy t i m)) = 21"
  by (simp add: sample_hand_def)

lemma is_fist_sample_hand:
  "is_fist (sample_hand ox oy t i m) =
     Inr (is_finger_curled_spec (fst i, snd i, 0) (45 / 100, 50 / 100, 0) (45 / 100, 60 / 100, 0)
        \<and> is_finger_curled_spec (fst m, snd m, 0) (50 / 100, 50 / 100, 0) (50 / 100, 60 / 100, 0))"
  apply (simp add: is_fist_21 [OF length_sample_hand])
  apply (simp add: sample_hand_def is_finger_curled_spec_squares split: prod.splits)
  apply (simp add: power2_eq_square)
  done


section \<open>The gesture arbiter\<close>

lemma process_gestures_unfold:
  assumes "get_fingertip h ''index'' = Inr (ix, iy, iz)"
    and "smooth_position (cursor_math self) ix iy = ((sx, sy), cm)"
    and "map_to_screen cm sx sy = Inr (px, py)"
  shows "process_gestures self h t =
           (if is_in_failsafe_region cm px py then (Inr (- 999), [], self\<lparr>cursor_math := cm\<rparr>)
            else (case is_fist h of
                    Inl e \<Rightarrow> (Inl e, [], self\<lparr>cursor_math := cm\<rparr>)
                  | Inr True \<Rightarrow> scroll_branch (self\<lparr>cursor_math := cm\<rparr>) h t
                  | Inr False \<Rightarrow> active_branch (self\<lparr>cursor_math := cm\<rparr>) h t px py))"
  using assms by (simp add: process_gestures_def Let_def)

lemma scroll_branch_keeps:
  "is_left_clicking (snd (snd (scroll_branch self h t))) = is_left_clicking self"
  "is_right_clicking (snd (snd (scroll_branch self h t))) = is_right_clicking self"
  "prev_x (cursor_math (snd (snd (scroll_branch self h t)))) = prev_x (cursor_math self)"
  "prev_y (cursor_math (snd (snd (scroll_branch self h t)))) = prev_y (cursor_math self)"
  by (simp_all add: scroll_branch_def Let_def calculate_scroll_delta_def reset_scroll_reference_def
        split: sum.splits option.splits prod.splits)

lemma active_branch_keeps:
  "cursor_math (snd (snd (active_branch self h t px py))) = cursor_math self"
  by (simp add: active_branch_def Let_def split: sum.splits prod.splits)

text \<open>
  Claim C3. When a hand is present and the smoothed, screen-mapped index fingertip lies in
  the fail-safe rectangle, \<open>_process_gestures\<close> returns the exit value at once: no move,
  click or scroll call is made, and nothing but the smoothing state changes. The main loop
  then renders the \<open>EXIT\<close> frame and is left: the frames after it are not processed.
\<close>

theorem failsafe_exit_only:
  assumes "get_fingertip h ''index'' = Inr (ix, iy, iz)"
    and "smooth_position (cursor_math self) ix iy = ((sx, sy), cm)"
    and "map_to_screen cm sx sy = Inr (px, py)"
    and "is_in_failsafe_region cm px py"
  shows "process_gestures self h t = (Inr (- 999), [], self\<lparr>cursor_math := cm\<rparr>)
     \<and> (ret f \<and> hand f = Some h \<longrightarrow>
          run_iteration self f =
            (Break,
             ([], Some \<lparr>render_mode = ''EXIT'', render_failsafe = True,
                        render_click_info = None, render_scroll_delta = 0\<rparr>),
             self\<lparr>cursor_math := cm\<rparr>)
        \<and> run self (f # fs) =
            ([([], Some \<lparr>render_mode = ''EXIT'', render_failsafe = True,
                         render_click_info = None, render_scroll_delta = 0\<rparr>)],
             Break, self\<lparr>cursor_math := cm\<rparr>))"
proof -
  have p: "process_gestures self h t = (Inr (- 999), [], self\<lparr>cursor_math := cm\<rparr>)" for t
    using assms by (simp add: process_gestures_unfold)
  have "run_iteration self f =
            (Break,
             ([], Some \<lparr>render_mode = ''EXIT'', render_failsafe = True,
                        render_click_info = None, render_scroll_delta = 0\<rparr>),
             self\<lparr>cursor_math := cm\<rparr>)" if "ret f" "hand f = Some h"
    using that by (simp add: run_iteration_def p)
  with p show ?thesis
    by simp
qed

lemma scroll_branch_mode:
  "scroll_branch self h t = (Inr r, acts, s1) \<Longrightarrow> current_mode s1 = MODE_SCROLL"
  by (auto simp: scroll_branch_def Let_def split: sum.splits prod.splits if_splits)

lemma active_branch_mode:
  "active_branch self h t px py = (Inr r, acts, s1) \<Longrightarrow> current_mode s1 = MODE_ACTIVE \<and> r = 0"
  by (auto simp: active_branch_def Let_def split: sum.splits prod.splits if_splits)

lemma process_gestures_returns:
  assumes "process_gestures self h t = (Inr r, acts, s1)" and "r \<noteq> - 999"
  shows "\<exists>ix iy iz sx sy cm px py.
           get_fingertip h ''index'' = Inr (ix, iy, iz)
         \<and> smooth_position (cursor_math self) ix iy = ((sx, sy), cm)
         \<and> map_to_screen cm sx sy = Inr (px, py)
         \<and> \<not> is_in_failsafe_region cm px py
         \<and> ((is_fist h = Inr True \<and> scroll_branch (self\<lparr>cursor_math := cm\<rparr>) h t = (Inr r, acts, s1))
            \<or> (is_fist h = Inr False
                \<and> active_branch (self\<lparr>cursor_math := cm\<rparr>) h t px py = (Inr r, acts, s1)))"
  using assms
  by (auto simp: process_gestures_def Let_def split: sum.splits prod.splits if_splits bool.splits)

lemma modes_distinct:
  "MODE_SCROLL \<noteq> MODE_ACTIVE" "MODE_IDLE \<noteq> MODE_ACTIVE" "MODE_IDLE \<noteq> MODE_SCROLL"
  "''EXIT'' \<noteq> MODE_ACTIVE" "''EXIT'' \<noteq> MODE_SCROLL" "''EXIT'' \<noteq> MODE_IDLE"
  by (simp_all add: MODE_SCROLL_def MODE_ACTIVE_def MODE_IDLE_def)

lemma run_iteration_rendered:
  assumes "run_iteration self f = (sg, (acts, Some shown), self')"
    and "render_mode shown \<noteq> ''EXIT''" "render_mode shown \<noteq> MODE_IDLE"
  shows "\<exists>h r s1. ret f \<and> hand f = Some h \<and> process_gestures self h (time_now f) = (Inr r, acts, s1)
           \<and> r \<noteq> - 999 \<and> render_mode shown = current_mode s1
           \<and> render_scroll_delta shown = r
           \<and> sg = (if key_q f then Break else Continue)
           \<and> self' = (if click_indicator s1 \<noteq> None \<and> time_now f - click_indicator_time s1 > 3 / 10
                       then s1\<lparr>click_indicator := None\<rparr> else s1)"
  using assms
  by (auto simp: run_iteration_def Let_def split: sum.splits prod.splits if_splits option.splits)

text \<open>
  Claim C8. A frame whose hand is classified as a fist leaves \<open>is_left_clicking\<close> and
  \<open>is_right_clicking\<close> as they were; so does every pass of the loop that renders the
  mode \<open>SCROLL\<close>, and such a pass is one with a fist.
\<close>

theorem scroll_mode_freezes_click_edges:
  "(is_fist h = Inr True \<longrightarrow>
      is_left_clicking (snd (snd (process_gestures self h t))) = is_left_clicking self
    \<and> is_right_clicking (snd (snd (process_gestures self h t))) = is_right_clicking self)
   \<and> (run_iteration self f = (sg, (acts, Some shown), self') \<and> render_mode shown = MODE_SCROLL \<longrightarrow>
      (\<exists>h. hand f = Some h \<and> is_fist h = Inr True)
    \<and> is_left_clicking self' = is_left_clicking self
    \<and> is_right_clicking self' = is_right_clicking self)"
proof -
  have a: "is_left_clicking (snd (snd (process_gestures self h t))) = is_left_clicking self
    \<and> is_right_clicking (snd (snd (process_gestures self h t))) = is_right_clicking self"
    if "is_fist h = Inr True" for h t
    using that
    by (simp add: process_gestures_def Let_def scroll_branch_keeps
          split: sum.splits prod.splits)
  have b: "(\<exists>h. hand f = Some h \<and> is_fist h = Inr True)
    \<and> is_left_clicking self' = is_left_clicking self
    \<and> is_right_clicking self' = is_right_clicking self"
    if it: "run_iteration self f = (sg, (acts, Some shown), self')"
      and sh: "render_mode shown = MODE_SCROLL"
  proof -
    from run_iteration_rendered [OF it] sh modes_distinct
    obtain h r s1 where h: "hand f = Some h"
      and pg: "process_gestures self h (time_now f) = (Inr r, acts, s1)"
      and r: "r \<noteq> - 999" and m: "current_mode s1 = MODE_SCROLL"
      and s: "self' = (if click_indicator s1 \<noteq> None \<and> time_now f - click_indicator_time s1 > 3 / 10
                       then s1\<lparr>click_indicator := None\<rparr> else s1)"
      by (metis (no_types, lifting))
    from process_gestures_returns [OF pg r] m active_branch_mode modes_distinct
    have fist: "is_fist h = Inr True"
      by metis
    from a [OF fist, of "time_now f"] pg s h fist show ?thesis
      by auto
  qed
  from a b show ?thesis
    by blast
qed


lemma smooth_position_stores:
  "smooth_position c x y = ((sx, sy), cm) \<Longrightarrow> prev_x cm = Some sx \<and> prev_y cm = Some sy"
  by (auto simp: smooth_position_def Let_def split: if_splits)

lemma sample_hand_reads:
  "get_fingertip (sample_hand ox oy th i m) ''thumb'' = Inr (fst th + ox, snd th + oy, 0)"
  "get_fingertip (sample_hand ox oy th i m) ''index'' = Inr (fst i + ox, snd i + oy, 0)"
  "get_fingertip (sample_hand ox oy th i m) ''middle'' = Inr (fst m + ox, snd m + oy, 0)"
  "get_landmark (sample_hand ox oy th i m) WRIST = Inr (50 / 100 + ox, 90 / 100 + oy, 0)"
  by (simp_all add: get_fingertip_names get_landmark_def WRIST_def py_index_def sample_hand_def
        split: prod.splits)

lemma process_gestures_corner_fist:
  "process_gestures (KineticOS_init 1920 1080) corner_fist_hand t =
     (Inr (- 999), [],
      (KineticOS_init 1920 1080)
        \<lparr>cursor_math := (CursorMath_init 1920 1080)\<lparr>prev_x := Some (4 / 5), prev_y := Some (11 / 50)\<rparr>\<rparr>)"
proof -
  let ?cm = "(CursorMath_init 1920 1080)\<lparr>prev_x := Some (4 / 5), prev_y := Some (11 / 50)\<rparr>"
  have g: "get_fingertip corner_fist_hand ''index'' = Inr (4 / 5, 11 / 50, 0)"
    by (simp add: corner_fist_hand_def sample_hand_reads)
  have s: "smooth_position (cursor_math (KineticOS_init 1920 1080)) (4 / 5) (11 / 50) =
             ((4 / 5, 11 / 50), ?cm)"
    by (simp add: smooth_position_def KineticOS_init_def CursorMath_init_def)
  have m: "map_to_screen ?cm (4 / 5) (11 / 50) = Inr (0, 35)"
    by (rule map_to_screen_samples)
  have f: "is_in_failsafe_region ?cm 0 35"
    by (simp add: is_in_failsafe_region_def FAILSAFE_X_END_def FAILSAFE_Y_END_def)
  show ?thesis
    unfolding process_gestures_unfold [OF g s m] using f by simp
qed

text \<open>
  Claim C10. On a hand frame the index fingertip is smoothed and mapped first; if the
  mapped point is in the fail-safe rectangle the exit value is returned whatever
  \<open>is_fist\<close> would say, and only otherwise is \<open>is_fist\<close> consulted, on the object whose
  filter state has already been advanced. After the call the filter state holds the
  smoothed point in every branch. The sample \<open>corner_fist_hand\<close> is a fist and yields
  the exit value.
\<close>

theorem failsafe_checked_before_fist:
  assumes "get_fingertip h ''index'' = Inr (ix, iy, iz)"
    and "smooth_position (cursor_math self) ix iy = ((sx, sy), cm)"
    and "map_to_screen cm sx sy = Inr (px, py)"
  shows "(is_in_failsafe_region cm px py \<longrightarrow>
            process_gestures self h t = (Inr (- 999), [], self\<lparr>cursor_math := cm\<rparr>))
     \<and> (\<not> is_in_failsafe_region cm px py \<longrightarrow>
            process_gestures self h t =
              (case is_fist h of
                 Inl e \<Rightarrow> (Inl e, [], self\<lparr>cursor_math := cm\<rparr>)
               | Inr True \<Rightarrow> scroll_branch (self\<lparr>cursor_math := cm\<rparr>) h t
               | Inr False \<Rightarrow> active_branch (self\<lparr>cursor_math := cm\<rparr>) h t px py))
     \<and> prev_x (cursor_math (snd (snd (process_gestures self h t)))) = Some sx
     \<and> prev_y (cursor_math (snd (snd (process_gestures self h t)))) = Some sy
     \<and> is_fist corner_fist_hand = Inr True
     \<and> fst (process_gestures (KineticOS_init 1920 1080) corner_fist_hand t) = Inr (- 999)"
proof -
  note u = process_gestures_unfold [OF assms]
  from smooth_position_stores [OF assms(2)]
  have st: "prev_x cm = Some sx" "prev_y cm = Some sy"
    by simp_all
  have x: "prev_x (cursor_math (snd (snd (process_gestures self h t)))) = Some sx"
    by (simp add: u st scroll_branch_keeps active_branch_keeps split: sum.splits bool.splits)
  have y: "prev_y (cursor_math (snd (snd (process_gestures self h t)))) = Some sy"
    by (simp add: u st scroll_branch_keeps active_branch_keeps split: sum.splits bool.splits)
  have f: "is_fist corner_fist_hand = Inr True"
    by (simp add: corner_fist_hand_def is_fist_sample_hand is_finger_curled_spec_squares
          power2_eq_square)
  have c: "fst (process_gestures (KineticOS_init 1920 1080) corner_fist_hand t) = Inr (- 999)"
    by (simp add: process_gestures_corner_fist)
  from u x y f c show ?thesis
    by simp
qed


theorem failsafe_checked_before_fist_witness:
  "is_fist corner_fist_hand = Inr True
   \<and> process_gestures (KineticOS_init 1920 1080) corner_fist_hand 1 =
     (Inr (- 999), [],
      (KineticOS_init 1920 1080)
        \<lparr>cursor_math := (CursorMath_init 1920 1080)\<lparr>prev_x := Some (4 / 5), prev_y := Some (11 / 50)\<rparr>\<rparr>)"
proof -
  let ?cm = "(CursorMath_init 1920 1080)\<lparr>prev_x := Some (4 / 5), prev_y := Some (11 / 50)\<rparr>"
  have g: "get_fingertip corner_fist_hand ''index'' = Inr (4 / 5, 11 / 50, 0)"
    by (simp add: corner_fist_hand_def sample_hand_reads)
  have s: "smooth_position (cursor_math (KineticOS_init 1920 1080)) (4 / 5) (11 / 50) =
             ((4 / 5, 11 / 50), ?cm)"
    by (simp add: smooth_position_def KineticOS_init_def CursorMath_init_def)
  have m: "map_to_screen ?cm (4 / 5) (11 / 50) = Inr (0, 35)"
    by (rule map_to_screen_samples)
  have f: "is_in_failsafe_region ?cm 0 35"
    by (simp add: is_in_failsafe_region_def FAILSAFE_X_END_def FAILSAFE_Y_END_def)
  from failsafe_checked_before_fist [OF g s m, of 1] f show ?thesis
    by simp
qed


lemma process_gestures_fist:
  assumes "cursor_math self = CursorMath_init 1920 1080" and "\<not> is_scrolling self"
  shows "process_gestures self fist_hand t =
     (Inr 0, [],
      self\<lparr>cursor_math := (CursorMath_init 1920 1080)
                \<lparr>prev_x := Some (9 / 20), prev_y := Some (31 / 50), prev_scroll_y := Some (9 / 10)\<rparr>,
            current_mode := MODE_SCROLL, is_scrolling := True\<rparr>)"
proof -
  let ?cm = "(CursorMath_init 1920 1080)\<lparr>prev_x := Some (9 / 20), prev_y := Some (31 / 50)\<rparr>"
  have g: "get_fingertip fist_hand ''index'' = Inr (9 / 20, 31 / 50, 0)"
    by (simp add: fist_hand_def sample_hand_reads)
  have s: "smooth_position (cursor_math self) (9 / 20) (31 / 50) = ((9 / 20, 31 / 50), ?cm)"
    by (simp add: smooth_position_def assms CursorMath_init_def)
  have m: "map_to_screen ?cm (9 / 20) (31 / 50) = Inr (1120, 755)"
    by (rule map_to_screen_samples)
  have f: "\<not> is_in_failsafe_region ?cm 1120 755"
    by (simp add: is_in_failsafe_region_def FAILSAFE_X_END_def FAILSAFE_Y_END_def)
  have i: "is_fist fist_hand = Inr True"
    by (simp add: fist_hand_def is_fist_sample_hand is_finger_curled_spec_squares power2_eq_square)
  have w: "get_landmark fist_hand WRIST = Inr (1 / 2, 9 / 10, 0)"
    by (simp add: fist_hand_def sample_hand_reads)
  have b: "scroll_branch (self\<lparr>cursor_math := ?cm\<rparr>) fist_hand t =
     (Inr 0, [],
      self\<lparr>cursor_math := (CursorMath_init 1920 1080)
                \<lparr>prev_x := Some (9 / 20), prev_y := Some (31 / 50), prev_scroll_y := Some (9 / 10)\<rparr>,
            current_mode := MODE_SCROLL, is_scrolling := True\<rparr>)"
    using assms(2)
    by (simp add: scroll_branch_def Let_def w reset_scroll_reference_def calculate_scroll_delta_def)
  show ?thesis
    unfolding process_gestures_unfold [OF g s m] using f i b by simp
qed

lemma run_iteration_fist:
  assumes "cursor_math self = CursorMath_init 1920 1080" and "\<not> is_scrolling self"
    and "click_indicator self = None"
  shows "run_iteration self \<lparr>ret = True, hand = Some fist_hand, time_now = t, key_q = False\<rparr> =
     (Continue,
      ([], Some \<lparr>render_mode = MODE_SCROLL, render_failsafe = False,
                 render_click_info = None, render_scroll_delta = 0\<rparr>),
      self\<lparr>cursor_math := (CursorMath_init 1920 1080)
                \<lparr>prev_x := Some (9 / 20), prev_y := Some (31 / 50), prev_scroll_y := Some (9 / 10)\<rparr>,
            current_mode := MODE_SCROLL, is_scrolling := True\<rparr>)"
  using assms(3)
  by (simp add: run_iteration_def process_gestures_fist [OF assms(1,2)])

theorem scroll_mode_freezes_click_edges_witness:
  "is_fist fist_hand = Inr True
   \<and> is_left_clicking (snd (snd (process_gestures
         ((KineticOS_init 1920 1080)\<lparr>is_left_clicking := True\<rparr>) fist_hand 1)))
   \<and> is_left_clicking (snd (snd (run_iteration ((KineticOS_init 1920 1080)\<lparr>is_left_clicking := True\<rparr>)
         \<lparr>ret = True, hand = Some fist_hand, time_now = 1, key_q = False\<rparr>)))"
proof -
  let ?s = "(KineticOS_init 1920 1080)\<lparr>is_left_clicking := True\<rparr>"
  let ?f = "\<lparr>ret = True, hand = Some fist_hand, time_now = 1, key_q = False\<rparr>"
  have i: "is_fist fist_hand = Inr True"
    by (simp add: fist_hand_def is_fist_sample_hand is_finger_curled_spec_squares power2_eq_square)
  have a: "cursor_math ?s = CursorMath_init 1920 1080" "\<not> is_scrolling ?s" "click_indicator ?s = None"
      "is_left_clicking ?s"
    by (simp_all add: KineticOS_init_def)
  note r = run_iteration_fist [OF a(1,2,3), of 1]
  from scroll_mode_freezes_click_edges [of fist_hand ?s 1] i a(4)
  have 1: "is_left_clicking (snd (snd (process_gestures ?s fist_hand 1)))"
    by simp
  from scroll_mode_freezes_click_edges
    [where self = ?s and f = ?f and sg = Continue and acts = "[]"
       and shown = "\<lparr>render_mode = MODE_SCROLL, render_failsafe = False,
                      render_click_info = None, render_scroll_delta = 0\<rparr>"
       and self' = "snd (snd (run_iteration ?s ?f))"]
    r a(4)
  have 2: "is_left_clicking (snd (snd (run_iteration ?s ?f)))"
    by simp
  from i 1 2 show ?thesis
    by simp
qed

theorem failsafe_exit_only_witness:
  "run (KineticOS_init 1920 1080)
     [\<lparr>ret = True, hand = Some corner_pointing_hand, time_now = 1, key_q = False\<rparr>,
      \<lparr>ret = True, hand = Some left_pinch_hand, time_now = 2, key_q = False\<rparr>] =
     ([([], Some \<lparr>render_mode = ''EXIT'', render_failsafe = True,
                  render_click_info = None, render_scroll_delta = 0\<rparr>)],
      Break,
      (KineticOS_init 1920 1080)
        \<lparr>cursor_math := (CursorMath_init 1920 1080)\<lparr>prev_x := Some (4 / 5), prev_y := Some (1 / 5)\<rparr>\<rparr>)"
proof -
  let ?cm = "(CursorMath_init 1920 1080)\<lparr>prev_x := Some (4 / 5), prev_y := Some (1 / 5)\<rparr>"
  have g: "get_fingertip corner_pointing_hand ''index'' = Inr (4 / 5, 1 / 5, 0)"
    by (simp add: corner_pointing_hand_def sample_hand_reads)
  have s: "smooth_position (cursor_math (KineticOS_init 1920 1080)) (4 / 5) (1 / 5) =
             ((4 / 5, 1 / 5), ?cm)"
    by (simp add: smooth_position_def KineticOS_init_def CursorMath_init_def)
  have m: "map_to_screen ?cm (4 / 5) (1 / 5) = Inr (0, 0)"
    by (rule map_to_screen_samples)
  have f: "is_in_failsafe_region ?cm 0 0"
    by (simp add: is_in_failsafe_region_def FAILSAFE_X_END_def FAILSAFE_Y_END_def)
  from failsafe_exit_only [OF g s m f,
      of 1 "\<lparr>ret = True, hand = Some corner_pointing_hand, time_now = 1, key_q = False\<rparr>"]
  show ?thesis
    by simp
qed

section \<open>Hand loss and malformed samples\<close>

lemma scroll_branch_entry:
  assumes "\<not> is_scrolling self" and "get_landmark h WRIST = Inr (wx, wy, wz)"
  shows "scroll_branch self h t =
           (Inr 0, [],
            self\<lparr>current_mode := MODE_SCROLL, is_scrolling := True,
                  cursor_math := (cursor_math self)\<lparr>prev_scroll_y := Some wy\<rparr>\<rparr>)"
  using assms
  by (simp add: scroll_branch_def Let_def reset_scroll_reference_def calculate_scroll_delta_def)

lemma process_gestures_advances_filter:
  assumes "get_fingertip h ''index'' = Inr (ix, iy, iz)"
    and "smooth_position (cursor_math self) ix iy = ((sx, sy), cm)"
    and "map_to_screen cm sx sy = Inr (px, py)"
  shows "prev_x (cursor_math (snd (snd (process_gestures self h t)))) = Some sx
       \<and> prev_y (cursor_math (snd (snd (process_gestures self h t)))) = Some sy"
  using smooth_position_stores [OF assms(2)]
  by (simp add: process_gestures_unfold [OF assms] scroll_branch_keeps active_branch_keeps
        split: sum.splits bool.splits)

lemma process_gestures_filter_set:
  assumes "process_gestures self h t = (Inr r, acts, s1)"
  shows "prev_x (cursor_math s1) \<noteq> None \<and> prev_y (cursor_math s1) \<noteq> None"
proof -
  from assms obtain ix iy iz where g: "get_fingertip h ''index'' = Inr (ix, iy, iz)"
    by (cases "get_fingertip h ''index''") (auto simp: process_gestures_def)
  obtain sx sy cm where s: "smooth_position (cursor_math self) ix iy = ((sx, sy), cm)"
    by (metis surj_pair)
  from assms g s obtain px py where m: "map_to_screen cm sx sy = Inr (px, py)"
    by (cases "map_to_screen cm sx sy") (auto simp: process_gestures_def)
  from process_gestures_advances_filter [OF g s m, of t] assms show ?thesis
    by simp
qed

text \<open>
  Claim C2, amended. On a captured frame with no hand the loop sets the mode to \<open>IDLE\<close>,
  unsets the filter state (\<open>prev_x\<close>, \<open>prev_y\<close>), clears \<open>is_left_clicking\<close>,
  \<open>is_right_clicking\<close> and \<open>is_scrolling\<close>, makes no \<open>pyautogui\<close> call and goes on to
  the next frame (or leaves on \<open>q\<close>). The scroll reference \<open>prev_scroll_y\<close> keeps its value:
  it is the next frame entering the scroll branch with \<open>is_scrolling\<close> false that resets it
  before taking the delta, which is then 0. After a captured frame with a hand that raised
  no exception the filter state is set, so it is unset exactly after hand loss.
\<close>

theorem hand_loss_resets:
  "(ret f \<and> hand f = None \<longrightarrow>
      run_iteration self f =
        (let self' = self\<lparr>current_mode := MODE_IDLE,
                          cursor_math := (cursor_math self)\<lparr>prev_x := None, prev_y := None\<rparr>,
                          is_left_clicking := False, is_right_clicking := False,
                          is_scrolling := False,
                          click_indicator :=
                            (if click_indicator self \<noteq> None
                                \<and> time_now f - click_indicator_time self > 3 / 10
                             then None else click_indicator self)\<rparr>
         in (if key_q f then Break else Continue,
             ([], Some \<lparr>render_mode = MODE_IDLE, render_failsafe = False,
                        render_click_info = click_indicator self', render_scroll_delta = 0\<rparr>),
             self')))
   \<and> (ret f \<and> hand f = Some h \<and> run_iteration self f = (sg, out, self') \<and> (\<forall>e. sg \<noteq> Raised e) \<longrightarrow>
        prev_x (cursor_math self') \<noteq> None \<and> prev_y (cursor_math self') \<noteq> None)
   \<and> (\<not> is_scrolling self \<and> get_landmark h WRIST = Inr (wx, wy, wz) \<longrightarrow>
        scroll_branch self h t =
           (Inr 0, [],
            self\<lparr>current_mode := MODE_SCROLL, is_scrolling := True,
                  cursor_math := (cursor_math self)\<lparr>prev_scroll_y := Some wy\<rparr>\<rparr>))"
proof -
  have a: "run_iteration self f =
        (let self' = self\<lparr>current_mode := MODE_IDLE,
                          cursor_math := (cursor_math self)\<lparr>prev_x := None, prev_y := None\<rparr>,
                          is_left_clicking := False, is_right_clicking := False,
                          is_scrolling := False,
                          click_indicator :=
                            (if click_indicator self \<noteq> None
                                \<and> time_now f - click_indicator_time self > 3 / 10
                             then None else click_indicator self)\<rparr>
         in (if key_q f then Break else Continue,
             ([], Some \<lparr>render_mode = MODE_IDLE, render_failsafe = False,
                        render_click_info = click_indicator self', render_scroll_delta = 0\<rparr>),
             self'))" if "ret f" "hand f = None"
    using that by (simp add: run_iteration_def Let_def reset_smoothing_def)
  have b: "prev_x (cursor_math self') \<noteq> None \<and> prev_y (cursor_math self') \<noteq> None"
    if "ret f" "hand f = Some h" "run_iteration self f = (sg, out, self')" "\<forall>e. sg \<noteq> Raised e"
  proof -
    obtain res acts s1 where pg: "process_gestures self h (time_now f) = (res, acts, s1)"
      by (metis surj_pair)
    with that obtain r where r: "res = Inr r"
      by (cases res) (auto simp: run_iteration_def Let_def)
    from process_gestures_filter_set [OF pg [unfolded r]]
    have "prev_x (cursor_math s1) \<noteq> None \<and> prev_y (cursor_math s1) \<noteq> None" .
    with that pg r show ?thesis
      by (auto simp: run_iteration_def Let_def split: if_splits)
  qed
  from a b scroll_branch_entry show ?thesis
    by blast
qed

lemma run_fist_then_lost:
  "run (KineticOS_init 1920 1080)
     [\<lparr>ret = True, hand = Some fist_hand, time_now = 1, key_q = False\<rparr>,
      \<lparr>ret = True, hand = None, time_now = 2, key_q = False\<rparr>] =
   ([([], Some \<lparr>render_mode = MODE_SCROLL, render_failsafe = False,
                 render_click_info = None, render_scroll_delta = 0\<rparr>),
     ([], Some \<lparr>render_mode = MODE_IDLE, render_failsafe = False,
                 render_click_info = None, render_scroll_delta = 0\<rparr>)],
    Continue,
    (KineticOS_init 1920 1080)
      \<lparr>cursor_math := (CursorMath_init 1920 1080)\<lparr>prev_scroll_y := Some (9 / 10)\<rparr>\<rparr>)"
proof -
  let ?s = "KineticOS_init 1920 1080"
  have a: "cursor_math ?s = CursorMath_init 1920 1080" "\<not> is_scrolling ?s" "click_indicator ?s = None"
    by (simp_all add: KineticOS_init_def)
  show ?thesis
    by (simp add: run_iteration_fist [OF a])
       (simp add: run_iteration_def Let_def reset_smoothing_def KineticOS_init_def
          CursorMath_init_def)
qed

text \<open>
  Claim C2 as stated fails: after a fist frame and then a frame without a hand, starting
  from the initial object, the scroll reference is still set.
\<close>

theorem hand_loss_resets_counterexample:
  "prev_scroll_y (cursor_math (snd (snd (run (KineticOS_init 1920 1080)
     [\<lparr>ret = True, hand = Some fist_hand, time_now = 1, key_q = False\<rparr>,
      \<lparr>ret = True, hand = None, time_now = 2, key_q = False\<rparr>])))) \<noteq> None"
  unfolding run_fist_then_lost by simp

theorem hand_loss_resets_witness:
  "run_iteration
     ((KineticOS_init 1920 1080)
        \<lparr>cursor_math := (CursorMath_init 1920 1080)
            \<lparr>prev_x := Some (9 / 20), prev_y := Some (31 / 50), prev_scroll_y := Some (9 / 10)\<rparr>,
         current_mode := MODE_SCROLL, is_scrolling := True, is_left_clicking := True\<rparr>)
     \<lparr>ret = True, hand = None, time_now = 2, key_q = False\<rparr> =
   (Continue,
    ([], Some \<lparr>render_mode = MODE_IDLE, render_failsafe = False,
                render_click_info = None, render_scroll_delta = 0\<rparr>),
    (KineticOS_init 1920 1080)
      \<lparr>cursor_math := (CursorMath_init 1920 1080)\<lparr>prev_scroll_y := Some (9 / 10)\<rparr>\<rparr>)"
  using hand_loss_resets
    [where f = "\<lparr>ret = True, hand = None, time_now = 2, key_q = False\<rparr>"
       and self = "(KineticOS_init 1920 1080)
        \<lparr>cursor_math := (CursorMath_init 1920 1080)
            \<lparr>prev_x := Some (9 / 20), prev_y := Some (31 / 50), prev_scroll_y := Some (9 / 10)\<rparr>,
         current_mode := MODE_SCROLL, is_scrolling := True, is_left_clicking := True\<rparr>"]
  by (simp add: KineticOS_init_def CursorMath_init_def)




lemma check_clicks_total:
  assumes "12 < length (landmarks h)"
  shows "check_left_click h = Inr (is_click (landmarks h ! 4) (landmarks h ! 8))"
    and "check_right_click h = Inr (is_click (landmarks h ! 4) (landmarks h ! 12))"
  using assms
  by (simp_all add: check_left_click_def check_right_click_def get_fingertip_names py_index_def)


lemma active_branch_total:
  assumes "12 < length (landmarks h)"
  shows "fst (active_branch self h t px py) = Inr 0"
  using assms
  by (simp add: active_branch_def Let_def check_clicks_total split: prod.splits)











section \<open>Click edge triggering\<close>

lemma active_branch_clicks:
  assumes "active_branch self h t px py = (Inr r, acts, s1)"
  shows "\<exists>l rr. check_left_click h = Inr l \<and> check_right_click h = Inr rr
     \<and> acts = MoveTo px py
          # (if l \<and> \<not> is_left_clicking self \<and> t - last_left_click_time self > CLICK_DEBOUNCE_TIME
             then [Click ''left''] else [])
          @ (if rr \<and> \<not> is_right_clicking self \<and> t - last_right_click_time self > CLICK_DEBOUNCE_TIME
             then [Click ''right''] else [])
     \<and> is_left_clicking s1 = l \<and> is_right_clicking s1 = rr
     \<and> last_left_click_time s1 =
          (if l \<and> \<not> is_left_clicking self \<and> t - last_left_click_time self > CLICK_DEBOUNCE_TIME
           then t else last_left_click_time self)
     \<and> last_right_click_time s1 =
          (if rr \<and> \<not> is_right_clicking self \<and> t - last_right_click_time self > CLICK_DEBOUNCE_TIME
           then t else last_right_click_time self)"
  using assms
  by (auto simp: active_branch_def Let_def split: sum.splits prod.splits if_splits)


lemma active_iteration:
  assumes it: "run_iteration self f = (sg, out, s')" and act: "rendered_active out"
  shows "click_count ''left'' out =
           of_bool (left_pinch f \<and> \<not> is_left_clicking self
                    \<and> time_now f - last_left_click_time self > CLICK_DEBOUNCE_TIME)"
    and "click_count ''right'' out =
           of_bool (right_pinch f \<and> \<not> is_right_clicking self
                    \<and> time_now f - last_right_click_time self > CLICK_DEBOUNCE_TIME)"
    and "is_left_clicking s' = left_pinch f" and "is_right_clicking s' = right_pinch f"
    and "last_left_click_time s' =
           (if left_pinch f \<and> \<not> is_left_clicking self
               \<and> time_now f - last_left_click_time self > CLICK_DEBOUNCE_TIME
            then time_now f else last_left_click_time self)"
    and "last_right_click_time s' =
           (if right_pinch f \<and> \<not> is_right_clicking self
               \<and> time_now f - last_right_click_time self > CLICK_DEBOUNCE_TIME
            then time_now f else last_right_click_time self)"
proof -
  obtain acts ro where out: "out = (acts, ro)"
    by (cases out)
  with act obtain shown where ro: "ro = Some shown" and sh: "render_mode shown = MODE_ACTIVE"
    by (auto simp: rendered_active_def split: option.splits)
  from run_iteration_rendered [OF it [unfolded out ro]] sh modes_distinct
  obtain h r s1 where h: "hand f = Some h"
    and pg: "process_gestures self h (time_now f) = (Inr r, acts, s1)"
    and r: "r \<noteq> - 999" and m: "current_mode s1 = MODE_ACTIVE"
    and s: "s' = (if click_indicator s1 \<noteq> None \<and> time_now f - click_indicator_time s1 > 3 / 10
                  then s1\<lparr>click_indicator := None\<rparr> else s1)"
    by (metis (no_types, lifting))
  from process_gestures_returns [OF pg r] m scroll_branch_mode modes_distinct
  obtain cm px py where ab: "active_branch (self\<lparr>cursor_math := cm\<rparr>) h (time_now f) px py = (Inr r, acts, s1)"
    by metis
  from active_branch_clicks [OF ab] obtain l rr where
    cl: "check_left_click h = Inr l" and cr: "check_right_click h = Inr rr"
    and a: "acts = MoveTo px py
          # (if l \<and> \<not> is_left_clicking self \<and> time_now f - last_left_click_time self > CLICK_DEBOUNCE_TIME
             then [Click ''left''] else [])
          @ (if rr \<and> \<not> is_right_clicking self \<and> time_now f - last_right_click_time self > CLICK_DEBOUNCE_TIME
             then [Click ''right''] else [])"
    and e: "is_left_clicking s1 = l" "is_right_clicking s1 = rr"
    and tl: "last_left_click_time s1 =
          (if l \<and> \<not> is_left_clicking self \<and> time_now f - last_left_click_time self > CLICK_DEBOUNCE_TIME
           then time_now f else last_left_click_time self)"
    and tr: "last_right_click_time s1 =
          (if rr \<and> \<not> is_right_clicking self \<and> time_now f - last_right_click_time self > CLICK_DEBOUNCE_TIME
           then time_now f else last_right_click_time self)"
    by auto
  have lp: "left_pinch f = l" and rp: "right_pinch f = rr"
    using h cl cr by (simp_all add: left_pinch_def right_pinch_def)
  show "click_count ''left'' out =
           of_bool (left_pinch f \<and> \<not> is_left_clicking self
                    \<and> time_now f - last_left_click_time self > CLICK_DEBOUNCE_TIME)"
    by (simp add: click_count_def out a lp)
  show "click_count ''right'' out =
           of_bool (right_pinch f \<and> \<not> is_right_clicking self
                    \<and> time_now f - last_right_click_time self > CLICK_DEBOUNCE_TIME)"
    by (simp add: click_count_def out a rp)
  show "is_left_clicking s' = left_pinch f" "is_right_clicking s' = right_pinch f"
    using s e lp rp by auto
  show "last_left_click_time s' =
           (if left_pinch f \<and> \<not> is_left_clicking self
               \<and> time_now f - last_left_click_time self > CLICK_DEBOUNCE_TIME
            then time_now f else last_left_click_time self)"
    using s tl lp by auto
  show "last_right_click_time s' =
           (if right_pinch f \<and> \<not> is_right_clicking self
               \<and> time_now f - last_right_click_time self > CLICK_DEBOUNCE_TIME
            then time_now f else last_right_click_time self)"
    using s tr rp by auto
qed

lemma run_active:
  assumes "run self fs = (outs, sg, s')" and "length outs = length fs"
    and "list_all rendered_active outs"
  shows "map (click_count ''left'') outs =
           map of_bool (click_fires (is_left_clicking self) (last_left_click_time self)
                          (map (\<lambda>f. (left_pinch f, time_now f)) fs))
       \<and> map (click_count ''right'') outs =
           map of_bool (click_fires (is_right_clicking self) (last_right_click_time self)
                          (map (\<lambda>f. (right_pinch f, time_now f)) fs))
       \<and> (fs \<noteq> [] \<longrightarrow> is_left_clicking s' = left_pinch (last fs)
                      \<and> is_right_clicking s' = right_pinch (last fs))"
  using assms
proof (induction fs arbitrary: self outs sg s')
  case Nil
  then show ?case by simp
next
  case (Cons f fs)
  obtain sg1 out s1 where it: "run_iteration self f = (sg1, out, s1)"
    by (metis surj_pair)
  show ?case
  proof (cases "sg1 = Continue")
    case True
    obtain outs' sg' s'' where rest: "run s1 fs = (outs', sg', s'')"
      by (metis surj_pair)
    from Cons.prems(1) it True rest
    have eq: "outs = out # outs'" "sg = sg'" "s' = s''"
      by simp_all
    from Cons.prems(2,3) eq have len: "length outs' = length fs"
      and ra: "rendered_active out" and ras: "list_all rendered_active outs'"
      by simp_all
    note step = active_iteration [OF it ra]
    note ih = Cons.IH [OF rest len ras]
    show ?thesis
    proof (cases "fs = []")
      case True
      with rest have "s'' = s1" "outs' = []"
        by simp_all
      with True eq step show ?thesis
        by (simp add: Let_def)
    next
      case False
      with ih eq step show ?thesis
        by (simp add: Let_def)
    qed
  next
    case False
    with Cons.prems(1) it have eq: "outs = [out]" "s' = s1"
      by (auto split: signal.splits)
    with Cons.prems(2,3) have fs: "fs = []" and ra: "rendered_active out"
      by simp_all
    note step = active_iteration [OF it ra]
    from eq fs step show ?thesis
      by (simp add: Let_def)
  qed
qed


lemma click_fires_rising_twice:
  assumes "t1 - l > CLICK_DEBOUNCE_TIME" and "t4 - t1 > CLICK_DEBOUNCE_TIME"
  shows "click_fires p l [(False, t0), (True, t1), (True, t2), (False, t3), (True, t4)] =
           [False, True, False, False, True]"
  using assms by (simp add: Let_def)

lemma click_fires_held:
  "click_fires p l [(True, t0), (True, t1), (True, t2)] =
     [\<not> p \<and> t0 - l > CLICK_DEBOUNCE_TIME, False, False]"
  by (simp add: Let_def)

lemma rising_twice_counts:
  assumes m: "map g fs = [False, True, True, False, True]"
    and g1: "time_now (fs ! 1) - l > CLICK_DEBOUNCE_TIME"
    and g2: "time_now (fs ! 4) - time_now (fs ! 1) > CLICK_DEBOUNCE_TIME"
  shows "map of_bool (click_fires p l (map (\<lambda>f. (g f, time_now f)) fs)) = [0, 1, 0, 0, 1 :: nat]"
proof -
  from m obtain f0 f1 f2 f3 f4 where fs: "fs = [f0, f1, f2, f3, f4]"
    and v: "\<not> g f0" "g f1" "g f2" "\<not> g f3" "g f4"
    by (auto simp: map_eq_Cons_conv)
  from g1 g2 have "time_now f1 - l > CLICK_DEBOUNCE_TIME"
    "time_now f4 - time_now f1 > CLICK_DEBOUNCE_TIME"
    by (simp_all add: fs)
  from click_fires_rising_twice [OF this] show ?thesis
    by (simp add: fs v)
qed

lemma held_counts:
  assumes m: "map g fs = [True, True, True]"
  shows "map of_bool (click_fires p l (map (\<lambda>f. (g f, time_now f)) fs)) =
           [of_bool (\<not> p \<and> time_now (fs ! 0) - l > CLICK_DEBOUNCE_TIME), 0, 0 :: nat]"
proof -
  from m obtain f0 f1 f2 where fs: "fs = [f0, f1, f2]" and v: "g f0" "g f1" "g f2"
    by (auto simp: map_eq_Cons_conv)
  from click_fires_held [of p l "time_now f0" "time_now f1" "time_now f2"] show ?thesis
    by (simp add: fs v)
qed

text \<open>
  Claim C1. Take any run of the loop in which every frame is processed in ACTIVE mode
  (each pass renders \<open>ACTIVE\<close>). Then on each frame the left click is called once if the
  spec's click rule fires for the left pinch predicate and not at all otherwise, and the
  same for the right click with its own edge state and timestamp. After the run the edge
  state is the last frame's predicate value, fire or no fire. For the predicate sequence
  false, true, true, false, true, with the second frame later than the last fire by more
  than the debounce interval and the fifth later than the second likewise, the clicks are
  exactly at indices 1 and 4. For true, true, true the only possible click is at index 0.
\<close>

theorem click_edge_triggering:
  assumes "run self fs = (outs, sg, s')" and "length outs = length fs"
    and "list_all rendered_active outs"
  shows "map (click_count ''left'') outs =
           map of_bool (click_fires (is_left_clicking self) (last_left_click_time self)
                          (map (\<lambda>f. (left_pinch f, time_now f)) fs))
       \<and> map (click_count ''right'') outs =
           map of_bool (click_fires (is_right_clicking self) (last_right_click_time self)
                          (map (\<lambda>f. (right_pinch f, time_now f)) fs))
       \<and> (fs \<noteq> [] \<longrightarrow> is_left_clicking s' = left_pinch (last fs)
                      \<and> is_right_clicking s' = right_pinch (last fs))
       \<and> (map left_pinch fs = [False, True, True, False, True]
            \<and> time_now (fs ! 1) - last_left_click_time self > CLICK_DEBOUNCE_TIME
            \<and> time_now (fs ! 4) - time_now (fs ! 1) > CLICK_DEBOUNCE_TIME \<longrightarrow>
          map (click_count ''left'') outs = [0, 1, 0, 0, 1])
       \<and> (map right_pinch fs = [False, True, True, False, True]
            \<and> time_now (fs ! 1) - last_right_click_time self > CLICK_DEBOUNCE_TIME
            \<and> time_now (fs ! 4) - time_now (fs ! 1) > CLICK_DEBOUNCE_TIME \<longrightarrow>
          map (click_count ''right'') outs = [0, 1, 0, 0, 1])
       \<and> (map left_pinch fs = [True, True, True] \<longrightarrow>
          map (click_count ''left'') outs =
            [of_bool (\<not> is_left_clicking self
                      \<and> time_now (fs ! 0) - last_left_click_time self > CLICK_DEBOUNCE_TIME), 0, 0])
       \<and> (map right_pinch fs = [True, True, True] \<longrightarrow>
          map (click_count ''right'') outs =
            [of_bool (\<not> is_right_clicking self
                      \<and> time_now (fs ! 0) - last_right_click_time self > CLICK_DEBOUNCE_TIME), 0, 0])"
proof -
  note g = run_active [OF assms]
  from g have l: "map (click_count ''left'') outs =
           map of_bool (click_fires (is_left_clicking self) (last_left_click_time self)
                          (map (\<lambda>f. (left_pinch f, time_now f)) fs))"
    and r: "map (click_count ''right'') outs =
           map of_bool (click_fires (is_right_clicking self) (last_right_click_time self)
                          (map (\<lambda>f. (right_pinch f, time_now f)) fs))"
    by simp_all
  from g l r rising_twice_counts [of left_pinch fs] rising_twice_counts [of right_pinch fs]
    held_counts [of left_pinch fs] held_counts [of right_pinch fs]
  show ?thesis
    by (simp only:) simp
qed


lemma sample_pinches:
  "check_left_click pointing_hand = Inr False" "check_left_click left_pinch_hand = Inr True"
  by (simp_all add: check_left_click_def pointing_hand_def left_pinch_hand_def sample_hand_reads
        is_click_squares power2_eq_square)

lemma run_iteration_sample:
  assumes inv: "cursor_math self = CursorMath_init 1920 1080
      \<or> cursor_math self = (CursorMath_init 1920 1080)\<lparr>prev_x := Some (9 / 20), prev_y := Some (3 / 10)\<rparr>"
    and h: "h = pointing_hand \<or> h = left_pinch_hand"
  shows "\<exists>out s1. run_iteration self (sample_frame h t) = (Continue, out, s1) \<and> rendered_active out
           \<and> cursor_math s1 = (CursorMath_init 1920 1080)\<lparr>prev_x := Some (9 / 20), prev_y := Some (3 / 10)\<rparr>"
proof -
  let ?cm = "(CursorMath_init 1920 1080)\<lparr>prev_x := Some (9 / 20), prev_y := Some (3 / 10)\<rparr>"
  from h have g: "get_fingertip h ''index'' = Inr (9 / 20, 3 / 10, 0)"
    by (auto simp: pointing_hand_def left_pinch_hand_def sample_hand_reads)
  from inv have s: "smooth_position (cursor_math self) (9 / 20) (3 / 10) = ((9 / 20, 3 / 10), ?cm)"
    by (auto simp: smooth_position_def CursorMath_init_def Let_def)
  have m: "map_to_screen ?cm (9 / 20) (3 / 10) = Inr (1120, 179)"
    by (rule map_to_screen_samples)
  have f: "\<not> is_in_failsafe_region ?cm 1120 179"
    by (simp add: is_in_failsafe_region_def FAILSAFE_X_END_def FAILSAFE_Y_END_def)
  from h have i: "is_fist h = Inr False"
    by (auto simp: pointing_hand_def left_pinch_hand_def is_fist_sample_hand
          is_finger_curled_spec_squares power2_eq_square)
  from h have len: "12 < length (landmarks h)"
    by (auto simp: pointing_hand_def left_pinch_hand_def length_sample_hand)
  have pg: "process_gestures self h t = active_branch (self\<lparr>cursor_math := ?cm\<rparr>) h t 1120 179"
    unfolding process_gestures_unfold [OF g s m] using f i by simp
  obtain res acts s1 where ab: "active_branch (self\<lparr>cursor_math := ?cm\<rparr>) h t 1120 179 = (res, acts, s1)"
    by (metis surj_pair)
  with active_branch_total [OF len, of "self\<lparr>cursor_math := ?cm\<rparr>" t 1120 179]
  have res: "res = Inr 0"
    by simp
  from active_branch_mode [OF ab [unfolded res]] have md: "current_mode s1 = MODE_ACTIVE"
    by simp
  from active_branch_keeps [of "self\<lparr>cursor_math := ?cm\<rparr>" h t 1120 179] ab
  have cm: "cursor_math s1 = ?cm"
    by simp
  show ?thesis
    by (simp add: run_iteration_def sample_frame_def pg ab res Let_def rendered_active_def md cm)
qed

lemma run_sample_frames:
  assumes "cursor_math self = CursorMath_init 1920 1080
      \<or> cursor_math self = (CursorMath_init 1920 1080)\<lparr>prev_x := Some (9 / 20), prev_y := Some (3 / 10)\<rparr>"
    and "\<forall>f \<in> set fs. \<exists>h t. f = sample_frame h t \<and> (h = pointing_hand \<or> h = left_pinch_hand)"
  shows "length (fst (run self fs)) = length fs \<and> list_all rendered_active (fst (run self fs))"
  using assms
proof (induction fs arbitrary: self)
  case Nil
  then show ?case by simp
next
  case (Cons f fs)
  from Cons.prems(2) obtain h t where f: "f = sample_frame h t"
    and h: "h = pointing_hand \<or> h = left_pinch_hand"
    by auto
  from run_iteration_sample [OF Cons.prems(1) h, of t] obtain out s1 where
    it: "run_iteration self f = (Continue, out, s1)" and ra: "rendered_active out"
    and cm: "cursor_math s1 = (CursorMath_init 1920 1080)\<lparr>prev_x := Some (9 / 20), prev_y := Some (3 / 10)\<rparr>"
    unfolding f by blast
  from Cons.prems(2) have rest: "\<forall>f \<in> set fs. \<exists>h t. f = sample_frame h t \<and> (h = pointing_hand \<or> h = left_pinch_hand)"
    by simp
  obtain outs sg s2 where r: "run s1 fs = (outs, sg, s2)"
    by (metis surj_pair)
  from Cons.IH [OF disjI2 [OF cm] rest] it ra r show ?case
    by simp
qed

theorem click_edge_triggering_witness:
  "map (click_count ''left'')
     (fst (run (KineticOS_init 1920 1080)
        [sample_frame pointing_hand 1, sample_frame left_pinch_hand 2, sample_frame left_pinch_hand 3,
         sample_frame pointing_hand 4, sample_frame left_pinch_hand 5])) = [0, 1, 0, 0, 1]"
proof -
  let ?s = "KineticOS_init 1920 1080"
  let ?fs = "[sample_frame pointing_hand 1, sample_frame left_pinch_hand 2,
              sample_frame left_pinch_hand 3, sample_frame pointing_hand 4,
              sample_frame left_pinch_hand 5]"
  obtain outs sg s' where r: "run ?s ?fs = (outs, sg, s')"
    by (metis surj_pair)
  have "cursor_math ?s = CursorMath_init 1920 1080"
    by (simp add: KineticOS_init_def)
  then have "length (fst (run ?s ?fs)) = length ?fs \<and> list_all rendered_active (fst (run ?s ?fs))"
    by (intro run_sample_frames) auto
  with r have len: "length outs = length ?fs" and ra: "list_all rendered_active outs"
    by simp_all
  have p: "map left_pinch ?fs = [False, True, True, False, True]"
    by (simp add: left_pinch_def sample_frame_def sample_pinches)
  have t: "time_now (?fs ! 1) - last_left_click_time ?s > CLICK_DEBOUNCE_TIME"
    "time_now (?fs ! 4) - time_now (?fs ! 1) > CLICK_DEBOUNCE_TIME"
    by (simp_all add: sample_frame_def KineticOS_init_def CLICK_DEBOUNCE_TIME_def)
  from click_edge_triggering [OF r len ra] p t
  have "map (click_count ''left'') outs = [0, 1, 0, 0, 1]"
    by blast
  with r show ?thesis
    by simp
qed

end
